theory Spec2Isabelle
  imports Main "HOL-Library.Word"
begin

unbundle bit_operations_syntax

section \<open>The block store of Akumuli: data model\<close>

text \<open>
  A shallow embedding of \<^verbatim>\<open>src/libakumuli/storage_engine/blockstore.cpp\<close>.
  Machine integers are words; every member function takes the store and returns the
  store it leaves; a panic and the undefined behaviour of C++ are results of their own.
  The two collaborators of the block store whose code is not part of that file
  (\<^verbatim>\<open>Volume\<close>, \<^verbatim>\<open>MetaVolume\<close>) are modelled from the specification. Logging calls
  are left out, and so is the constructor, which opens files: what it establishes (one
  dirty counter per volume) is a hypothesis where a theorem needs it.
\<close>

type_synonym u8 = "8 word"
type_synonym u32 = "32 word"
type_synonym u64 = "64 word"

text \<open>
  Modelled from the spec: the types \<^verbatim>\<open>LogicAddr\<close> and \<^verbatim>\<open>BlockAddr\<close> (declared
  outside blockstore.cpp), a 64-bit handle and a 32-bit offset in a volume.
\<close>

type_synonym LogicAddr = u64
type_synonym BlockAddr = u32

text \<open>
  Modelled from the spec: the type \<^verbatim>\<open>aku_Status\<close> (declared outside blockstore.cpp).
  Success, the two error codes the block store names (invalid argument, overflow), and
  every other code by its number.
\<close>

datatype aku_Status = AKU_SUCCESS | AKU_EBAD_ARG | AKU_EOVERFLOW | AKU_EOTHER nat

text \<open>
  What ends a call without a return value: \<^verbatim>\<open>AKU_PANIC\<close> with its message, and
  the undefined behaviour of C++ (a vector read out of range, a remainder by zero, the
  exception of \<^verbatim>\<open>vector::at\<close>).
\<close>

datatype fatal = Panic string | Undefined

subsection \<open>MetaVolume\<close>

text \<open>
  Modelled from the spec: the class \<^verbatim>\<open>MetaVolume\<close> (its code is outside
  blockstore.cpp). A registry of one generation and one block count per volume slot,
  each field readable and writable on its own; a getter returns a status and a value, a
  setter a status. \<open>generation_status\<close> and \<open>nblocks_status\<close> are what the storage
  behind the generations and behind the block counts reports (\<open>AKU_SUCCESS\<close> when it
  works): an access to failing storage reports that status, whatever it is. A lookup
  of a field the registry does not hold fails as an invalid argument. The flush only
  counts how often it was issued.
\<close>

record MetaVolume =
  slot_generation :: "nat \<rightharpoonup> u32"
  slot_nblocks :: "nat \<rightharpoonup> u32"
  generation_status :: aku_Status
  nblocks_status :: aku_Status
  meta_flushes :: nat

definition get_generation :: "MetaVolume \<Rightarrow> nat \<Rightarrow> aku_Status \<times> u32" where
  "get_generation m ix =
     (if generation_status m \<noteq> AKU_SUCCESS then (generation_status m, 0)
      else case slot_generation m ix of
             None \<Rightarrow> (AKU_EBAD_ARG, 0)
           | Some g \<Rightarrow> (AKU_SUCCESS, g))"

definition get_nblocks :: "MetaVolume \<Rightarrow> nat \<Rightarrow> aku_Status \<times> u32" where
  "get_nblocks m ix =
     (if nblocks_status m \<noteq> AKU_SUCCESS then (nblocks_status m, 0)
      else case slot_nblocks m ix of
             None \<Rightarrow> (AKU_EBAD_ARG, 0)
           | Some n \<Rightarrow> (AKU_SUCCESS, n))"

definition set_generation :: "MetaVolume \<Rightarrow> nat \<Rightarrow> u32 \<Rightarrow> aku_Status \<times> MetaVolume" where
  "set_generation m ix g =
     (if generation_status m \<noteq> AKU_SUCCESS then (generation_status m, m)
      else case slot_generation m ix of
             None \<Rightarrow> (AKU_EBAD_ARG, m)
           | Some _ \<Rightarrow> (AKU_SUCCESS, m\<lparr>slot_generation := (slot_generation m)(ix \<mapsto> g)\<rparr>))"

definition set_nblocks :: "MetaVolume \<Rightarrow> nat \<Rightarrow> u32 \<Rightarrow> aku_Status \<times> MetaVolume" where
  "set_nblocks m ix n =
     (if nblocks_status m \<noteq> AKU_SUCCESS then (nblocks_status m, m)
      else case slot_nblocks m ix of
             None \<Rightarrow> (AKU_EBAD_ARG, m)
           | Some _ \<Rightarrow> (AKU_SUCCESS, m\<lparr>slot_nblocks := (slot_nblocks m)(ix \<mapsto> n)\<rparr>))"

definition MetaVolume_flush :: "MetaVolume \<Rightarrow> MetaVolume" where
  "MetaVolume_flush m = m\<lparr>meta_flushes := meta_flushes m + 1\<rparr>"

subsection \<open>Volume\<close>

text \<open>
  Modelled from the spec: the class \<^verbatim>\<open>Volume\<close> (its code is outside blockstore.cpp).
  A fixed-capacity, append-only sequence of blocks: \<open>file_size\<close> is the capacity in
  blocks, \<open>written\<close> the blocks appended so far (the write cursor is its length),
  \<open>io_status\<close> what the backing storage reports (\<open>AKU_SUCCESS\<close> when it works),
  \<open>vol_flushes\<close> how often a flush was issued. An append to a full volume reports
  overflow; a read at or past the write cursor fails; an access to failing storage
  reports its status (with offset 0, for an append); a read copies the stored block
  over the caller's buffer, whose size it cannot change.
\<close>

record Volume =
  file_size :: u32
  written :: "u8 list list"
  io_status :: aku_Status
  vol_flushes :: nat

definition Volume_get_size :: "Volume \<Rightarrow> u32" where
  "Volume_get_size v = file_size v"

definition Volume_append_block :: "Volume \<Rightarrow> u8 list \<Rightarrow> aku_Status \<times> BlockAddr \<times> Volume" where
  "Volume_append_block v source =
     (if unat (file_size v) \<le> length (written v) then (AKU_EOVERFLOW, 0, v)
      else if io_status v \<noteq> AKU_SUCCESS then (io_status v, 0, v)
      else (AKU_SUCCESS, of_nat (length (written v)), v\<lparr>written := written v @ [source]\<rparr>))"

definition Volume_read_block :: "Volume \<Rightarrow> BlockAddr \<Rightarrow> u8 list \<Rightarrow> aku_Status \<times> u8 list" where
  "Volume_read_block v ix dest =
     (if length (written v) \<le> unat ix then (AKU_EBAD_ARG, dest)
      else if io_status v \<noteq> AKU_SUCCESS then (io_status v, dest)
      else (AKU_SUCCESS,
            take (length dest) (written v ! unat ix) @ drop (length (written v ! unat ix)) dest))"

definition Volume_reset :: "Volume \<Rightarrow> Volume" where
  "Volume_reset v = v\<lparr>written := []\<rparr>"

definition Volume_flush :: "Volume \<Rightarrow> Volume" where
  "Volume_flush v = v\<lparr>vol_flushes := vol_flushes v + 1\<rparr>"

subsection \<open>Block and BlockStore\<close>

text \<open>
  \<^verbatim>\<open>Block\<close>: the payload and the address (the back reference to the store is a
  pointer and carries no content of its own).
\<close>

record Block =
  data :: "u8 list"
  addr :: LogicAddr

definition get_data :: "Block \<Rightarrow> u8 list" where
  "get_data b = data b"

definition get_size :: "Block \<Rightarrow> nat" where
  "get_size b = length (data b)"

text \<open>
  Modelled from the spec: the declarations of the members of \<^verbatim>\<open>BlockStore\<close>
  (blockstore.h is outside the sources). The generation is the 32-bit value the
  addressing functions take, the current volume is an index into the volumes, a dirty
  counter counts the appends and resets since the last flush.
\<close>

record BlockStore =
  meta :: MetaVolume
  volumes :: "Volume list"
  dirty :: "nat list"
  current_volume :: nat
  current_gen :: u32
  total_size :: nat

section \<open>Addressing\<close>

definition extract_gen :: "LogicAddr \<Rightarrow> u32" where
  "extract_gen a = ucast (drop_bit 32 a)"

definition extract_vol :: "LogicAddr \<Rightarrow> BlockAddr" where
  "extract_vol a = ucast (a AND 0xFFFFFFFF)"

definition make_logic :: "u32 \<Rightarrow> BlockAddr \<Rightarrow> LogicAddr" where
  "make_logic gen a = push_bit 32 (ucast gen) OR ucast a"

section \<open>Operations of the block store\<close>

text \<open>\<^verbatim>\<open>BlockStore::exists\<close>; the remainder by the number of volumes is undefined for none.\<close>

definition exists :: "BlockStore \<Rightarrow> LogicAddr \<Rightarrow> fatal + bool" where
  "exists s a =
     (let gen = extract_gen a;
          vol = extract_vol a
      in if volumes s = [] then Inl Undefined
         else
           let volix = unat gen mod length (volumes s);
               (status, actual_gen) = get_generation (meta s) volix
           in if status \<noteq> AKU_SUCCESS then Inr False
              else
                let (status, nblocks) = get_nblocks (meta s) volix
                in if status \<noteq> AKU_SUCCESS then Inr False
                   else Inr (actual_gen = gen \<and> vol < nblocks))"

text \<open>
  \<^verbatim>\<open>BlockStore::read_block\<close>. The fixed block size \<^verbatim>\<open>AKU_BLOCK_SIZE\<close> is a macro
  defined outside the sources; it is the parameter \<open>block_size\<close>. The result is the
  status and the block (none for the null pointer).
\<close>

definition read_block :: "nat \<Rightarrow> BlockStore \<Rightarrow> LogicAddr \<Rightarrow> fatal + (aku_Status \<times> Block option)" where
  "read_block block_size s a =
     (let gen = extract_gen a;
          vol = extract_vol a
      in if volumes s = [] then Inl Undefined
         else
           let volix = unat gen mod length (volumes s);
               (status, actual_gen) = get_generation (meta s) volix
           in if status \<noteq> AKU_SUCCESS then Inr (AKU_EBAD_ARG, None)
              else
                let (status, nblocks) = get_nblocks (meta s) volix
                in if status \<noteq> AKU_SUCCESS then Inr (AKU_EBAD_ARG, None)
                   else if actual_gen \<noteq> gen \<or> vol \<ge> nblocks then Inr (AKU_EBAD_ARG, None)
                   else
                     let dest = replicate block_size 0;
                         (status, dest) = Volume_read_block (volumes s ! volix) vol dest
                     in if status \<noteq> AKU_SUCCESS then Inr (status, None)
                        else Inr (status, Some \<lparr>data = dest, addr = a\<rparr>))"

text \<open>\<^verbatim>\<open>BlockStore::advance_volume\<close>.\<close>

definition advance_volume :: "BlockStore \<Rightarrow> fatal + BlockStore" where
  "advance_volume s =
     (if volumes s = [] then Inl Undefined
      else
        let s = s\<lparr>current_volume := (current_volume s + 1) mod length (volumes s)\<rparr>;
            (status, gen) = get_generation (meta s) (current_volume s);
            s = s\<lparr>current_gen := gen\<rparr>
        in if status \<noteq> AKU_SUCCESS then Inl (Panic ''Can't read generation of the next volume'')
           else
             let (status, nblocks) = get_nblocks (meta s) (current_volume s)
             in if status \<noteq> AKU_SUCCESS then Inl (Panic ''Can't read nblocks of the next volume'')
                else if nblocks \<noteq> 0 then
                  let s = s\<lparr>current_gen := current_gen s + of_nat (length (volumes s))\<rparr>;
                      (status, m) = set_generation (meta s) (current_volume s) (current_gen s)
                  in if status \<noteq> AKU_SUCCESS
                     then Inl (Panic ''Invalid BlockStore state, can't reset volume's generation'')
                     else
                       let (status, m) = set_nblocks m (current_volume s) 0
                       in if status \<noteq> AKU_SUCCESS
                          then Inl (Panic ''Invalid BlockStore state, can't reset volume's nblocks'')
                          else if length (dirty s) \<le> current_volume s then Inl Undefined
                          else Inr (s\<lparr>meta := m,
                                      volumes := (volumes s)[current_volume s :=
                                                   Volume_reset (volumes s ! current_volume s)],
                                      dirty := (dirty s)[current_volume s :=
                                                   dirty s ! current_volume s + 1]\<rparr>)
                else Inr s)"

text \<open>\<^verbatim>\<open>BlockStore::append_block\<close>: the status, the address and the store afterwards.\<close>

definition append_block :: "BlockStore \<Rightarrow> u8 list \<Rightarrow> fatal + (aku_Status \<times> LogicAddr \<times> BlockStore)" where
  "append_block s source =
     (if length (volumes s) \<le> current_volume s then Inl Undefined
      else
        let (status, block_addr, v) = Volume_append_block (volumes s ! current_volume s) source;
            s = s\<lparr>volumes := (volumes s)[current_volume s := v]\<rparr>
        in if status = AKU_EOVERFLOW then
             (case advance_volume s of
                Inl f \<Rightarrow> Inl f
              | Inr s \<Rightarrow>
                  if length (volumes s) \<le> current_volume s then Inl Undefined
                  else
                    let (status, block_addr, v) =
                          Volume_append_block (volumes s ! current_volume s) source;
                        s = s\<lparr>volumes := (volumes s)[current_volume s := v]\<rparr>
                    in if status \<noteq> AKU_SUCCESS then Inr (status, 0, s)
                       else Inr (status, make_logic (current_gen s) block_addr, s))
           else
             let (status, m) = set_nblocks (meta s) (current_volume s) (block_addr + 1)
             in if status \<noteq> AKU_SUCCESS then Inl (Panic ''Invalid BlockStore state'')
                else if length (dirty s) \<le> current_volume s then Inl Undefined
                else Inr (status, make_logic (current_gen s) block_addr,
                          s\<lparr>meta := m,
                            dirty := (dirty s)[current_volume s := dirty s ! current_volume s + 1]\<rparr>))"

text \<open>
  \<^verbatim>\<open>BlockStore::flush\<close>: the loop over the dirty counters, from index \<open>ix\<close> on, then
  the flush of the MetaVolume.
\<close>

function flush_loop :: "nat \<Rightarrow> BlockStore \<Rightarrow> fatal + BlockStore" where
  "flush_loop ix s =
     (if ix < length (dirty s) then
        (if dirty s ! ix \<noteq> 0 then
           (if length (volumes s) \<le> ix then Inl Undefined
            else flush_loop (ix + 1)
                   (s\<lparr>dirty := (dirty s)[ix := 0],
                      volumes := (volumes s)[ix := Volume_flush (volumes s ! ix)]\<rparr>))
         else flush_loop (ix + 1) s)
      else Inr s)"
  by pat_completeness auto
termination
  by (relation "measure (\<lambda>(ix, s). length (dirty s) - ix)") auto

definition flush :: "BlockStore \<Rightarrow> fatal + BlockStore" where
  "flush s =
     (case flush_loop 0 s of
        Inl f \<Rightarrow> Inl f
      | Inr s \<Rightarrow> Inr (s\<lparr>meta := MetaVolume_flush (meta s)\<rparr>))"

section \<open>Example stores\<close>

text \<open>Blocks of four bytes, for a block size of 4.\<close>

definition blk :: "u8 \<Rightarrow> u8 list" where
  "blk x = [x, x, x, x]"

definition healthy :: "u32 \<Rightarrow> u8 list list \<Rightarrow> Volume" where
  "healthy cap bs = \<lparr>file_size = cap, written = bs, io_status = AKU_SUCCESS, vol_flushes = 0\<rparr>"

text \<open>A registry whose storage works, not flushed yet.\<close>

definition registry :: "(nat \<rightharpoonup> u32) \<Rightarrow> (nat \<rightharpoonup> u32) \<Rightarrow> MetaVolume" where
  "registry gens counts =
     \<lparr>slot_generation = gens, slot_nblocks = counts, generation_status = AKU_SUCCESS,
      nblocks_status = AKU_SUCCESS, meta_flushes = 0\<rparr>"

text \<open>
  Two volumes of four blocks each, generations 0 and 1; volume 0 is full after four
  appends, volume 1 was never used.
\<close>

definition store_first_full :: BlockStore where
  "store_first_full =
     \<lparr>meta = registry [0 \<mapsto> 0, 1 \<mapsto> 1] [0 \<mapsto> 4, 1 \<mapsto> 0],
      volumes = [healthy 4 [blk 1, blk 2, blk 3, blk 4], healthy 4 []],
      dirty = [4, 0], current_volume = 0, current_gen = 0, total_size = 8\<rparr>"

text \<open>Both volumes full, volume 1 current: the next append wraps around to volume 0.\<close>

definition store_both_full :: BlockStore where
  "store_both_full =
     \<lparr>meta = registry [0 \<mapsto> 0, 1 \<mapsto> 1] [0 \<mapsto> 4, 1 \<mapsto> 4],
      volumes = [healthy 4 [blk 1, blk 2, blk 3, blk 4], healthy 4 [blk 5, blk 6, blk 7, blk 8]],
      dirty = [4, 3], current_volume = 1, current_gen = 1, total_size = 8\<rparr>"

text \<open>
  Two blocks written to volume 0, whose backing storage then reports status 8 on every
  access.
\<close>

definition store_io_error :: BlockStore where
  "store_io_error =
     \<lparr>meta = registry [0 \<mapsto> 0, 1 \<mapsto> 1] [0 \<mapsto> 2, 1 \<mapsto> 0],
      volumes = [\<lparr>file_size = 4, written = [blk 1, blk 2], io_status = AKU_EOTHER 8,
                  vol_flushes = 0\<rparr>,
                 healthy 4 []],
      dirty = [2, 0], current_volume = 0, current_gen = 0, total_size = 8\<rparr>"

text \<open>
  \<open>store_first_full\<close> after one more append of \<open>blk 9\<close>, which rotates to volume 1;
  \<open>store_both_full\<close> after one more append of \<open>blk 9\<close>, which wraps around to volume 0
  and resets it.
\<close>

definition store_rotated :: BlockStore where
  "store_rotated =
     \<lparr>meta = registry [0 \<mapsto> 0, 1 \<mapsto> 1] [0 \<mapsto> 4, 1 \<mapsto> 0],
      volumes = [healthy 4 [blk 1, blk 2, blk 3, blk 4], healthy 4 [blk 9]],
      dirty = [4, 0], current_volume = 1, current_gen = 1, total_size = 8\<rparr>"

definition store_wrapped :: BlockStore where
  "store_wrapped =
     \<lparr>meta = registry [0 \<mapsto> 2, 1 \<mapsto> 1] [0 \<mapsto> 0, 1 \<mapsto> 4],
      volumes = [healthy 4 [blk 9], healthy 4 [blk 5, blk 6, blk 7, blk 8]],
      dirty = [5, 3], current_volume = 0, current_gen = 2, total_size = 8\<rparr>"

text \<open>Appending a list of blocks one after the other: the results and the last store.\<close>

fun append_blocks :: "BlockStore \<Rightarrow> u8 list list \<Rightarrow> fatal + ((aku_Status \<times> LogicAddr) list \<times> BlockStore)" where
  "append_blocks s [] = Inr ([], s)"
| "append_blocks s (b # bs) =
     (case append_block s b of
        Inl f \<Rightarrow> Inl f
      | Inr (status, a, s') \<Rightarrow>
          (case append_blocks s' bs of
             Inl f \<Rightarrow> Inl f
           | Inr (rs, s'') \<Rightarrow> Inr ((status, a) # rs, s'')))"

text \<open>The two volumes before the first append.\<close>

definition store_fresh :: BlockStore where
  "store_fresh =
     \<lparr>meta = registry [0 \<mapsto> 0, 1 \<mapsto> 1] [0 \<mapsto> 0, 1 \<mapsto> 0],
      volumes = [healthy 4 [], healthy 4 []],
      dirty = [0, 0], current_volume = 0, current_gen = 0, total_size = 8\<rparr>"

section \<open>Addressing round trip\<close>

lemma extract_gen_make_logic: "extract_gen (make_logic g off) = g"
  unfolding extract_gen_def make_logic_def
  by (rule bit_word_eqI) (auto simp add: bit_simps dest: bit_imp_le_length)

lemma low_mask: "(0xFFFFFFFF :: 64 word) = mask 32"
  by (simp add: mask_eq_exp_minus_1)

lemma extract_vol_make_logic: "extract_vol (make_logic g off) = off"
  unfolding extract_vol_def make_logic_def low_mask
  by (rule bit_word_eqI) (auto simp add: bit_simps dest: bit_imp_le_length)

lemma unat_make_logic: "unat (make_logic g off) = unat g * 2 ^ 32 + unat off"
proof -
  have disj: "push_bit 32 (ucast g :: 64 word) AND ucast off = 0"
    by (rule bit_word_eqI) (auto simp add: bit_simps dest: bit_imp_le_length)
  have sum: "make_logic g off = push_bit 32 (ucast g) + ucast off"
    unfolding make_logic_def by (rule disjunctive_add_eq_or [OF disj, symmetric])
  have g: "unat g < 2 ^ 32" and off: "unat off < 2 ^ 32"
    using unsigned_less [of g] unsigned_less [of off] by simp_all
  have ug: "unat (ucast g :: 64 word) = unat g" and uo: "unat (ucast off :: 64 word) = unat off"
    using g off by (simp_all add: unsigned_ucast_eq take_bit_nat_eq_self)
  from g have "unat g * 2 ^ 32 < 2 ^ 64" by simp
  then have hi: "unat (push_bit 32 (ucast g :: 64 word)) = unat g * 2 ^ 32"
    using ug by (simp add: push_bit_eq_mult unat_word_ariths)
  from g off have "unat g * 2 ^ 32 + unat off < 2 ^ 64" by simp
  then show ?thesis
    unfolding sum using hi uo by (simp add: unat_word_ariths)
qed

text \<open>
  C9. For every 32-bit generation \<open>g\<close> and 32-bit offset \<open>off\<close>, \<open>make_logic g off\<close> is
  the generation shifted left by 32 bits, or-ed with the offset; \<open>extract_gen\<close> and
  \<open>extract_vol\<close> give \<open>g\<close> and \<open>off\<close> back; and nothing wraps around: as a number the
  address is \<open>g * 2^32 + off\<close>.
\<close>

theorem make_logic_round_trip:
  "make_logic g off = push_bit 32 (ucast g) OR ucast off
   \<and> extract_gen (make_logic g off) = g
   \<and> extract_vol (make_logic g off) = off
   \<and> unat (make_logic g off) = unat g * 2 ^ 32 + unat off"
  using extract_gen_make_logic [of g off] extract_vol_make_logic [of g off]
    unat_make_logic [of g off]
  by (simp add: make_logic_def)

section \<open>Resolving an address\<close>

text \<open>
  C5. On a store with at least one volume, \<open>exists\<close> returns a truth value for every
  address, never an error: true exactly when the slot \<open>generation mod volume count\<close>
  has the address's generation stored and a stored block count above the address's
  offset; false whenever one of the two MetaVolume lookups fails.
\<close>

theorem exists_total:
  assumes "volumes s \<noteq> []"
  shows "exists s a =
           Inr (\<exists>n. get_generation (meta s) (unat (extract_gen a) mod length (volumes s))
                        = (AKU_SUCCESS, extract_gen a)
                    \<and> get_nblocks (meta s) (unat (extract_gen a) mod length (volumes s))
                        = (AKU_SUCCESS, n)
                    \<and> extract_vol a < n)
         \<and> (fst (get_generation (meta s) (unat (extract_gen a) mod length (volumes s))) \<noteq> AKU_SUCCESS
              \<or> fst (get_nblocks (meta s) (unat (extract_gen a) mod length (volumes s))) \<noteq> AKU_SUCCESS
            \<longrightarrow> exists s a = Inr False)"
  using assms
  by (auto simp add: exists_def Let_def get_generation_def get_nblocks_def split: option.splits if_splits)

theorem exists_total_witness:
  "exists store_first_full (make_logic 0 3) = Inr True
   \<and> exists store_first_full (make_logic 0 4) = Inr False
   \<and> exists store_first_full (make_logic 2 0) = Inr False
   \<and> exists (store_first_full\<lparr>meta := (meta store_first_full)\<lparr>slot_nblocks := Map.empty\<rparr>\<rparr>)
        (make_logic 0 3) = Inr False
   \<and> exists (store_first_full\<lparr>meta := (meta store_first_full)\<lparr>generation_status := AKU_EOTHER 8\<rparr>\<rparr>)
        (make_logic 0 3) = Inr False
   \<and> exists (store_first_full\<lparr>meta := (meta store_first_full)\<lparr>nblocks_status := AKU_EOTHER 8\<rparr>\<rparr>)
        (make_logic 0 3) = Inr False"
proof -
  have ne: "volumes store_first_full \<noteq> []"
    by (simp add: store_first_full_def)
  have ne': "volumes (store_first_full\<lparr>meta := m\<rparr>) \<noteq> []" for m
    by (simp add: store_first_full_def)
  have 1: "exists store_first_full (make_logic 0 3) = Inr True"
    using exists_total [OF ne, of "make_logic 0 3"]
    by (simp add: registry_def extract_gen_make_logic extract_vol_make_logic store_first_full_def
        get_generation_def get_nblocks_def)
  have 2: "exists store_first_full (make_logic 0 4) = Inr False"
    using exists_total [OF ne, of "make_logic 0 4"]
    by (simp add: registry_def extract_gen_make_logic extract_vol_make_logic store_first_full_def
        get_generation_def get_nblocks_def)
  have 3: "exists store_first_full (make_logic 2 0) = Inr False"
    using exists_total [OF ne, of "make_logic 2 0"]
    by (simp add: registry_def extract_gen_make_logic extract_vol_make_logic store_first_full_def
        get_generation_def get_nblocks_def flip: numeral_2_eq_2)
  have 4: "exists (store_first_full\<lparr>meta := (meta store_first_full)\<lparr>slot_nblocks := Map.empty\<rparr>\<rparr>)
        (make_logic 0 3) = Inr False"
    using exists_total [OF ne' [of "(meta store_first_full)\<lparr>slot_nblocks := Map.empty\<rparr>"],
        of "make_logic 0 3"]
    by (simp add: registry_def extract_gen_make_logic extract_vol_make_logic store_first_full_def
        get_generation_def get_nblocks_def)
  have 5: "exists (store_first_full\<lparr>meta := (meta store_first_full)\<lparr>generation_status := AKU_EOTHER 8\<rparr>\<rparr>)
        (make_logic 0 3) = Inr False"
    using exists_total [OF ne' [of "(meta store_first_full)\<lparr>generation_status := AKU_EOTHER 8\<rparr>"],
        of "make_logic 0 3"]
    by (simp add: registry_def extract_gen_make_logic extract_vol_make_logic store_first_full_def
        get_generation_def get_nblocks_def)
  have 6: "exists (store_first_full\<lparr>meta := (meta store_first_full)\<lparr>nblocks_status := AKU_EOTHER 8\<rparr>\<rparr>)
        (make_logic 0 3) = Inr False"
    using exists_total [OF ne' [of "(meta store_first_full)\<lparr>nblocks_status := AKU_EOTHER 8\<rparr>"],
        of "make_logic 0 3"]
    by (simp add: registry_def extract_gen_make_logic extract_vol_make_logic store_first_full_def
        get_generation_def get_nblocks_def)
  from 1 2 3 4 5 6 show ?thesis by simp
qed

text \<open>
  C4. On a store with at least one volume, \<open>read_block\<close> returns \<open>AKU_EBAD_ARG\<close> when the
  lookup of the generation or of the block count fails, and when the stored generation
  differs from the address's or the offset is not below the stored block count; when
  these checks pass and the volume's read reports a failure, that status is returned
  as it is.
\<close>

theorem read_block_errors:
  assumes "volumes s \<noteq> []"
  shows "(fst (get_generation (meta s) (unat (extract_gen a) mod length (volumes s))) \<noteq> AKU_SUCCESS
            \<or> fst (get_nblocks (meta s) (unat (extract_gen a) mod length (volumes s))) \<noteq> AKU_SUCCESS
          \<longrightarrow> read_block bsz s a = Inr (AKU_EBAD_ARG, None))
       \<and> (get_generation (meta s) (unat (extract_gen a) mod length (volumes s)) = (AKU_SUCCESS, g)
            \<and> get_nblocks (meta s) (unat (extract_gen a) mod length (volumes s)) = (AKU_SUCCESS, n)
            \<and> (g \<noteq> extract_gen a \<or> n \<le> extract_vol a)
          \<longrightarrow> read_block bsz s a = Inr (AKU_EBAD_ARG, None))
       \<and> (get_generation (meta s) (unat (extract_gen a) mod length (volumes s))
              = (AKU_SUCCESS, extract_gen a)
            \<and> get_nblocks (meta s) (unat (extract_gen a) mod length (volumes s)) = (AKU_SUCCESS, n)
            \<and> extract_vol a < n
            \<and> Volume_read_block (volumes s ! (unat (extract_gen a) mod length (volumes s)))
                 (extract_vol a) (replicate bsz 0) = (st, d)
            \<and> st \<noteq> AKU_SUCCESS
          \<longrightarrow> read_block bsz s a = Inr (st, None))"
  using assms
  by (auto simp add: read_block_def Let_def get_generation_def get_nblocks_def split: option.splits if_splits)

theorem read_block_errors_witness:
  "read_block 4 (store_first_full\<lparr>meta := (meta store_first_full)\<lparr>slot_nblocks := Map.empty\<rparr>\<rparr>)
     (make_logic 0 3) = Inr (AKU_EBAD_ARG, None)
   \<and> read_block 4 store_first_full (make_logic 2 0) = Inr (AKU_EBAD_ARG, None)
   \<and> read_block 4 store_first_full (make_logic 0 4) = Inr (AKU_EBAD_ARG, None)
   \<and> read_block 4 store_io_error (make_logic 0 0) = Inr (AKU_EOTHER 8, None)
   \<and> get_generation ((meta store_first_full)\<lparr>generation_status := AKU_EOTHER 8\<rparr>) 0
        = (AKU_EOTHER 8, 0)
   \<and> read_block 4 (store_first_full\<lparr>meta := (meta store_first_full)\<lparr>generation_status := AKU_EOTHER 8\<rparr>\<rparr>)
        (make_logic 0 3) = Inr (AKU_EBAD_ARG, None)
   \<and> get_nblocks ((meta store_first_full)\<lparr>nblocks_status := AKU_EOTHER 8\<rparr>) 0
        = (AKU_EOTHER 8, 0)
   \<and> read_block 4 (store_first_full\<lparr>meta := (meta store_first_full)\<lparr>nblocks_status := AKU_EOTHER 8\<rparr>\<rparr>)
        (make_logic 0 3) = Inr (AKU_EBAD_ARG, None)"
proof -
  have nem: "volumes (store_first_full\<lparr>meta := m\<rparr>) \<noteq> []" for m
    by (simp add: store_first_full_def)
  have 5: "get_generation ((meta store_first_full)\<lparr>generation_status := AKU_EOTHER 8\<rparr>) 0
        = (AKU_EOTHER 8, 0)"
    "get_nblocks ((meta store_first_full)\<lparr>nblocks_status := AKU_EOTHER 8\<rparr>) 0
        = (AKU_EOTHER 8, 0)"
    by (simp_all add: get_generation_def get_nblocks_def)
  have 6: "read_block 4 (store_first_full\<lparr>meta := (meta store_first_full)\<lparr>generation_status := AKU_EOTHER 8\<rparr>\<rparr>)
        (make_logic 0 3) = Inr (AKU_EBAD_ARG, None)"
    using read_block_errors [OF nem [of "(meta store_first_full)\<lparr>generation_status := AKU_EOTHER 8\<rparr>"],
        where a = "make_logic 0 3" and bsz = 4]
    by (simp add: registry_def extract_gen_make_logic extract_vol_make_logic store_first_full_def
        get_generation_def get_nblocks_def)
  have 7: "read_block 4 (store_first_full\<lparr>meta := (meta store_first_full)\<lparr>nblocks_status := AKU_EOTHER 8\<rparr>\<rparr>)
        (make_logic 0 3) = Inr (AKU_EBAD_ARG, None)"
    using read_block_errors [OF nem [of "(meta store_first_full)\<lparr>nblocks_status := AKU_EOTHER 8\<rparr>"],
        where a = "make_logic 0 3" and bsz = 4]
    by (simp add: registry_def extract_gen_make_logic extract_vol_make_logic store_first_full_def
        get_generation_def get_nblocks_def)
  have ne: "volumes store_first_full \<noteq> []"
    by (simp add: registry_def store_first_full_def)
  have ne': "volumes (store_first_full\<lparr>meta := (meta store_first_full)\<lparr>slot_nblocks := Map.empty\<rparr>\<rparr>) \<noteq> []"
    by (simp add: registry_def store_first_full_def)
  have ne'': "volumes store_io_error \<noteq> []"
    by (simp add: registry_def store_io_error_def)
  have 1: "read_block 4 (store_first_full\<lparr>meta := (meta store_first_full)\<lparr>slot_nblocks := Map.empty\<rparr>\<rparr>)
     (make_logic 0 3) = Inr (AKU_EBAD_ARG, None)"
    using read_block_errors [OF ne', where a = "make_logic 0 3" and bsz = 4]
    by (simp add: registry_def extract_gen_make_logic extract_vol_make_logic store_first_full_def
        get_generation_def get_nblocks_def)
  have 2: "read_block 4 store_first_full (make_logic 2 0) = Inr (AKU_EBAD_ARG, None)"
    using read_block_errors [OF ne, where a = "make_logic 2 0" and bsz = 4 and g = 0 and n = 4]
    by (simp add: registry_def extract_gen_make_logic extract_vol_make_logic store_first_full_def
        get_generation_def get_nblocks_def flip: numeral_2_eq_2)
  have 3: "read_block 4 store_first_full (make_logic 0 4) = Inr (AKU_EBAD_ARG, None)"
    using read_block_errors [OF ne, where a = "make_logic 0 4" and bsz = 4 and g = 0 and n = 4]
    by (simp add: registry_def extract_gen_make_logic extract_vol_make_logic store_first_full_def
        get_generation_def get_nblocks_def)
  have 4: "read_block 4 store_io_error (make_logic 0 0) = Inr (AKU_EOTHER 8, None)"
    using read_block_errors [OF ne'', where a = "make_logic 0 0" and bsz = 4 and n = 2
        and st = "AKU_EOTHER 8" and d = "replicate 4 0"]
    by (simp add: registry_def extract_gen_make_logic extract_vol_make_logic store_io_error_def
        get_generation_def get_nblocks_def Volume_read_block_def)
  from 1 2 3 4 5 6 7 show ?thesis by simp
qed

text \<open>
  C10. A successful \<open>read_block\<close> returns a block: it stores the requested address, and
  its \<open>get_size\<close> is the fixed block size, the size the buffer was allocated with before
  the volume's read.
\<close>

theorem read_block_success:
  assumes "read_block bsz s a = Inr (AKU_SUCCESS, r)"
  shows "\<exists>b. r = Some b \<and> addr b = a \<and> get_size b = bsz"
  using assms
  by (auto simp add: read_block_def Let_def get_size_def Volume_read_block_def
      split: if_splits prod.splits)

lemma read_first_full:
  "read_block 4 store_first_full (make_logic 0 2)
     = Inr (AKU_SUCCESS, Some \<lparr>data = blk 3, addr = make_logic 0 2\<rparr>)"
  by (simp add: registry_def read_block_def extract_gen_make_logic extract_vol_make_logic store_first_full_def
        get_generation_def get_nblocks_def Volume_read_block_def healthy_def blk_def)

theorem read_block_success_witness:
  "read_block 4 store_first_full (make_logic 0 2)
     = Inr (AKU_SUCCESS, Some \<lparr>data = blk 3, addr = make_logic 0 2\<rparr>)
   \<and> (\<exists>b. Some \<lparr>data = blk 3, addr = make_logic 0 2\<rparr> = Some b \<and> addr b = make_logic 0 2
          \<and> get_size b = 4)"
  using read_first_full read_block_success [OF read_first_full] by simp

section \<open>Rotation\<close>

text \<open>
  C6. \<open>advance_volume\<close> moves \<open>current_volume\<close> to \<open>(current_volume + 1) mod volume count\<close>.
  When the block count stored for the new slot is not zero, \<open>current_gen\<close> becomes the
  generation stored for that slot plus the volume count (in 32-bit arithmetic), that
  generation and a block count of 0 are stored for the slot, the slot's volume is reset
  and its dirty counter goes up by one. When the stored block count is zero,
  \<open>current_gen\<close> becomes the stored generation and the metadata, the volumes and the
  dirty counters stay as they are.
\<close>

theorem advance_volume_behaviour:
  assumes "volumes s \<noteq> []" and "length (dirty s) = length (volumes s)"
    and "nx = (current_volume s + 1) mod length (volumes s)"
    and "get_generation (meta s) nx = (AKU_SUCCESS, g)"
    and "get_nblocks (meta s) nx = (AKU_SUCCESS, nb)"
  shows "(nb \<noteq> 0 \<longrightarrow>
            advance_volume s =
              Inr (s\<lparr>current_volume := nx,
                     current_gen := g + of_nat (length (volumes s)),
                     meta := (meta s)\<lparr>slot_generation := (slot_generation (meta s))
                                           (nx \<mapsto> g + of_nat (length (volumes s))),
                                      slot_nblocks := (slot_nblocks (meta s))(nx \<mapsto> 0)\<rparr>,
                     volumes := (volumes s)[nx := Volume_reset (volumes s ! nx)],
                     dirty := (dirty s)[nx := dirty s ! nx + 1]\<rparr>))
       \<and> (nb = 0 \<longrightarrow> advance_volume s = Inr (s\<lparr>current_volume := nx, current_gen := g\<rparr>))"
proof -
  have nx: "\<not> length (volumes s) \<le> Suc (current_volume s) mod length (volumes s)"
    using assms(1) by (simp add: not_le)
  show ?thesis
    using assms nx
    by (auto simp add: advance_volume_def Let_def get_generation_def get_nblocks_def
        set_generation_def set_nblocks_def split: option.splits if_splits)
qed


theorem advance_volume_behaviour_witness:
  "advance_volume store_both_full =
     Inr (store_both_full\<lparr>current_volume := 0, current_gen := 2,
            meta := registry [0 \<mapsto> 2, 1 \<mapsto> 1] [0 \<mapsto> 0, 1 \<mapsto> 4],
            volumes := [healthy 4 [], healthy 4 [blk 5, blk 6, blk 7, blk 8]],
            dirty := [5, 3]\<rparr>)
   \<and> advance_volume store_first_full = Inr (store_first_full\<lparr>current_volume := 1, current_gen := 1\<rparr>)"
proof -
  have a: "volumes store_both_full \<noteq> []" "length (dirty store_both_full) = length (volumes store_both_full)"
    "0 = (current_volume store_both_full + 1) mod length (volumes store_both_full)"
    "get_generation (meta store_both_full) 0 = (AKU_SUCCESS, 0)"
    "get_nblocks (meta store_both_full) 0 = (AKU_SUCCESS, 4)"
    by (simp_all add: registry_def store_both_full_def get_generation_def get_nblocks_def)
  have b: "volumes store_first_full \<noteq> []" "length (dirty store_first_full) = length (volumes store_first_full)"
    "1 = (current_volume store_first_full + 1) mod length (volumes store_first_full)"
    "get_generation (meta store_first_full) 1 = (AKU_SUCCESS, 1)"
    "get_nblocks (meta store_first_full) 1 = (AKU_SUCCESS, 0)"
    by (simp_all add: registry_def store_first_full_def get_generation_def get_nblocks_def)
  have 1: "advance_volume store_both_full =
     Inr (store_both_full\<lparr>current_volume := 0, current_gen := 2,
            meta := registry [0 \<mapsto> 2, 1 \<mapsto> 1] [0 \<mapsto> 0, 1 \<mapsto> 4],
            volumes := [healthy 4 [], healthy 4 [blk 5, blk 6, blk 7, blk 8]],
            dirty := [5, 3]\<rparr>)"
    using advance_volume_behaviour [OF a]
    by (auto simp add: registry_def store_both_full_def Volume_reset_def healthy_def fun_eq_iff)
  have 2: "advance_volume store_first_full = Inr (store_first_full\<lparr>current_volume := 1, current_gen := 1\<rparr>)"
    using advance_volume_behaviour [OF b] by simp
  from 1 2 show ?thesis by simp
qed

text \<open>
  C7. Let a rotation reset a slot whose stored generation was \<open>g\<close>, let the address
  \<open>a\<close> carry the generation \<open>g\<close> and resolve to that slot, and let the new generation
  \<open>g + volume count\<close> differ from \<open>g\<close>. Then in the store right after the reset, and in
  every store \<open>t\<close> with as many volumes in which the slot still has the generation the
  reset gave it, \<open>exists a\<close> is false and \<open>read_block a\<close> returns \<open>AKU_EBAD_ARG\<close>.
\<close>

theorem stale_after_reset:
  assumes adv: "advance_volume s = Inr s'"
    and nx: "nx = (current_volume s + 1) mod length (volumes s)"
    and old: "get_generation (meta s) nx = (AKU_SUCCESS, g)"
    and used: "get_nblocks (meta s) nx = (AKU_SUCCESS, nb)" "nb \<noteq> 0"
    and a: "extract_gen a = g" "unat g mod length (volumes s) = nx"
    and differ: "g + of_nat (length (volumes s)) \<noteq> g"
    and later: "length (volumes t) = length (volumes s')"
      "get_generation (meta t) nx = get_generation (meta s') nx"
  shows "exists s' a = Inr False \<and> read_block bsz s' a = Inr (AKU_EBAD_ARG, None)
       \<and> exists t a = Inr False \<and> read_block bsz t a = Inr (AKU_EBAD_ARG, None)"
proof -
  have ne: "volumes s \<noteq> []"
    using adv by (auto simp add: advance_volume_def)
  have inr: "\<not> length (volumes s) \<le> Suc (current_volume s) mod length (volumes s)"
    using ne by (simp add: not_le)
  have s': "length (volumes s') = length (volumes s)"
    "get_generation (meta s') nx = (AKU_SUCCESS, g + of_nat (length (volumes s)))"
    using adv nx old used inr ne
    by (auto simp add: advance_volume_def Let_def get_generation_def get_nblocks_def
        set_generation_def set_nblocks_def split: option.splits if_splits)
  have gen: "exists u a = Inr False \<and> read_block bsz u a = Inr (AKU_EBAD_ARG, None)"
    if "length (volumes u) = length (volumes s)"
      "get_generation (meta u) nx = (AKU_SUCCESS, g + of_nat (length (volumes s)))" for u
  proof -
    have "volumes u \<noteq> []" using that(1) ne by auto
    then show ?thesis
      using that a differ
      by (auto simp add: exists_def read_block_def Let_def split: prod.splits)
  qed
  from gen [of s'] gen [of t] s' later show ?thesis by simp
qed

lemma advance_both_full:
  "advance_volume store_both_full =
     Inr (store_both_full\<lparr>current_volume := 0, current_gen := 2,
            meta := registry [0 \<mapsto> 2, 1 \<mapsto> 1] [0 \<mapsto> 0, 1 \<mapsto> 4],
            volumes := [healthy 4 [], healthy 4 [blk 5, blk 6, blk 7, blk 8]],
            dirty := [5, 3]\<rparr>)"
  by (simp add: registry_def advance_volume_def store_both_full_def healthy_def get_generation_def
      get_nblocks_def set_generation_def set_nblocks_def Volume_reset_def Let_def fun_eq_iff)

theorem stale_after_reset_witness:
  "exists store_wrapped (make_logic 0 3) = Inr False
   \<and> read_block 4 store_wrapped (make_logic 0 3) = Inr (AKU_EBAD_ARG, None)"
proof -
  have h: "0 = (current_volume store_both_full + 1) mod length (volumes store_both_full)"
    "get_generation (meta store_both_full) 0 = (AKU_SUCCESS, 0)"
    "get_nblocks (meta store_both_full) 0 = (AKU_SUCCESS, 4)" "(4::u32) \<noteq> 0"
    "extract_gen (make_logic 0 3) = 0"
    "unat (0::u32) mod length (volumes store_both_full) = 0"
    "(0::u32) + of_nat (length (volumes store_both_full)) \<noteq> 0"
    by (simp_all add: registry_def store_both_full_def get_generation_def get_nblocks_def
        extract_gen_make_logic)
  have l: "length (volumes store_wrapped) =
      length (volumes (store_both_full\<lparr>current_volume := 0, current_gen := 2,
            meta := registry [0 \<mapsto> 2, 1 \<mapsto> 1] [0 \<mapsto> 0, 1 \<mapsto> 4],
            volumes := [healthy 4 [], healthy 4 [blk 5, blk 6, blk 7, blk 8]],
            dirty := [5, 3]\<rparr>))"
    "get_generation (meta store_wrapped) 0 =
      get_generation (meta (store_both_full\<lparr>current_volume := 0, current_gen := 2,
            meta := registry [0 \<mapsto> 2, 1 \<mapsto> 1] [0 \<mapsto> 0, 1 \<mapsto> 4],
            volumes := [healthy 4 [], healthy 4 [blk 5, blk 6, blk 7, blk 8]],
            dirty := [5, 3]\<rparr>)) 0"
    by (simp_all add: registry_def store_wrapped_def store_both_full_def get_generation_def)
  from stale_after_reset [OF advance_both_full h l, of 4] show ?thesis by simp
qed

section \<open>Flush\<close>

lemma flush_loop_pointwise:
  "length (dirty s) = length (volumes s) \<Longrightarrow>
   \<exists>s'. flush_loop ix s = Inr s'
      \<and> length (dirty s') = length (dirty s) \<and> length (volumes s') = length (volumes s)
      \<and> (\<forall>i < length (dirty s).
            dirty s' ! i = (if ix \<le> i then 0 else dirty s ! i)
          \<and> volumes s' ! i = (if ix \<le> i \<and> dirty s ! i \<noteq> 0 then Volume_flush (volumes s ! i)
                               else volumes s ! i))
      \<and> meta s' = meta s \<and> current_volume s' = current_volume s
      \<and> current_gen s' = current_gen s \<and> total_size s' = total_size s"
proof (induction ix s rule: flush_loop.induct)
  case (1 ix s)
  show ?case
  proof (cases "ix < length (dirty s)")
    case False
    then show ?thesis by (subst flush_loop.simps) simp
  next
    case True
    show ?thesis
    proof (cases "dirty s ! ix \<noteq> 0")
      case clean: False
      from "1.IH"(2) [OF True clean "1.prems"] obtain s' where
        run: "flush_loop (ix + 1) s = Inr s'"
        and len: "length (dirty s') = length (dirty s)" "length (volumes s') = length (volumes s)"
        and pt: "\<And>i. i < length (dirty s) \<Longrightarrow>
            dirty s' ! i = (if ix + 1 \<le> i then 0 else dirty s ! i)
          \<and> volumes s' ! i = (if ix + 1 \<le> i \<and> dirty s ! i \<noteq> 0 then Volume_flush (volumes s ! i)
                               else volumes s ! i)"
        and rest: "meta s' = meta s" "current_volume s' = current_volume s"
          "current_gen s' = current_gen s" "total_size s' = total_size s"
        by blast
      have step: "flush_loop ix s = Inr s'"
        using True clean run by (subst flush_loop.simps) simp
      have "dirty s' ! i = (if ix \<le> i then 0 else dirty s ! i)
          \<and> volumes s' ! i = (if ix \<le> i \<and> dirty s ! i \<noteq> 0 then Volume_flush (volumes s ! i)
                               else volumes s ! i)" if "i < length (dirty s)" for i
      proof (cases "i = ix")
        case True
        with pt [OF that] clean show ?thesis by simp
      next
        case False
        then have "(ix + 1 \<le> i) = (ix \<le> i)" by arith
        with pt [OF that] show ?thesis by simp
      qed
      with step len rest show ?thesis by blast
    next
      case dirt: True
      define t where "t = s\<lparr>dirty := (dirty s)[ix := 0],
                  volumes := (volumes s)[ix := Volume_flush (volumes s ! ix)]\<rparr>"
      have inr: "\<not> length (volumes s) \<le> ix" using True "1.prems" by simp
      have tlen: "length (dirty t) = length (volumes t)" using "1.prems" by (simp add: t_def)
      from "1.IH"(1) [OF True dirt inr tlen [unfolded t_def]] obtain s' where
        run: "flush_loop (ix + 1) t = Inr s'"
        and len: "length (dirty s') = length (dirty t)" "length (volumes s') = length (volumes t)"
        and pt: "\<And>i. i < length (dirty t) \<Longrightarrow>
            dirty s' ! i = (if ix + 1 \<le> i then 0 else dirty t ! i)
          \<and> volumes s' ! i = (if ix + 1 \<le> i \<and> dirty t ! i \<noteq> 0 then Volume_flush (volumes t ! i)
                               else volumes t ! i)"
        and rest: "meta s' = meta t" "current_volume s' = current_volume t"
          "current_gen s' = current_gen t" "total_size s' = total_size t"
        unfolding t_def [symmetric] by blast
      have step: "flush_loop ix s = Inr s'"
        using True dirt inr run by (subst flush_loop.simps) (simp add: t_def)
      have tl: "length (dirty t) = length (dirty s)" "length (volumes t) = length (volumes s)"
        by (simp_all add: t_def)
      have "dirty s' ! i = (if ix \<le> i then 0 else dirty s ! i)
          \<and> volumes s' ! i = (if ix \<le> i \<and> dirty s ! i \<noteq> 0 then Volume_flush (volumes s ! i)
                               else volumes s ! i)" if "i < length (dirty s)" for i
      proof (cases "i = ix")
        case eq: True
        have "dirty t ! ix = 0" "volumes t ! ix = Volume_flush (volumes s ! ix)"
          using True inr by (simp_all add: t_def)
        with pt [of ix] True tl dirt eq show ?thesis by simp
      next
        case False
        then have "(ix + 1 \<le> i) = (ix \<le> i)" by arith
        moreover have "dirty t ! i = dirty s ! i" "volumes t ! i = volumes s ! i"
          using False by (simp_all add: t_def)
        ultimately show ?thesis using pt [of i] that tl by simp
      qed
      moreover have "meta s' = meta s" "current_volume s' = current_volume s"
          "current_gen s' = current_gen s" "total_size s' = total_size s"
        using rest by (simp_all add: t_def)
      ultimately show ?thesis using step len tl by auto
    qed
  qed
qed



lemma flush_loop_closed:
  assumes "length (dirty s) = length (volumes s)"
  shows "flush_loop 0 s =
     Inr (s\<lparr>dirty := replicate (length (dirty s)) 0,
            volumes := map (\<lambda>(v, d). if d \<noteq> 0 then Volume_flush v else v)
                         (zip (volumes s) (dirty s))\<rparr>)"
proof -
  from flush_loop_pointwise [OF assms, of 0] obtain s' where
    run: "flush_loop 0 s = Inr s'"
    and len: "length (dirty s') = length (dirty s)" "length (volumes s') = length (volumes s)"
    and pt: "\<And>i. i < length (dirty s) \<Longrightarrow>
          dirty s' ! i = (if 0 \<le> i then 0 else dirty s ! i)
        \<and> volumes s' ! i = (if 0 \<le> i \<and> dirty s ! i \<noteq> 0 then Volume_flush (volumes s ! i)
                             else volumes s ! i)"
    and rest: "meta s' = meta s" "current_volume s' = current_volume s"
      "current_gen s' = current_gen s" "total_size s' = total_size s"
    by blast
  have d: "dirty s' = replicate (length (dirty s)) 0"
  proof (rule nth_equalityI)
    show "length (dirty s') = length (replicate (length (dirty s)) (0::nat))"
      using len by simp
    show "dirty s' ! i = replicate (length (dirty s)) 0 ! i" if "i < length (dirty s')" for i
      using that len pt [of i] by simp
  qed
  have v: "volumes s' = map (\<lambda>(v, d). if d \<noteq> 0 then Volume_flush v else v)
                         (zip (volumes s) (dirty s))"
  proof (rule nth_equalityI)
    show "length (volumes s') = length (map (\<lambda>(v, d). if d \<noteq> 0 then Volume_flush v else v)
                         (zip (volumes s) (dirty s)))"
      using len assms by simp
    show "volumes s' ! i = map (\<lambda>(v, d). if d \<noteq> 0 then Volume_flush v else v)
                         (zip (volumes s) (dirty s)) ! i" if "i < length (volumes s')" for i
      using that len assms pt [of i] by simp
  qed
  have "s' = s\<lparr>dirty := dirty s', volumes := volumes s'\<rparr>"
    using rest by simp
  then have "s' = s\<lparr>dirty := replicate (length (dirty s)) 0,
            volumes := map (\<lambda>(v, d). if d \<noteq> 0 then Volume_flush v else v)
                         (zip (volumes s) (dirty s))\<rparr>"
    unfolding d v .
  with run show ?thesis by simp
qed


lemma flush_closed:
  assumes "length (dirty s) = length (volumes s)"
  shows "flush s =
     Inr (s\<lparr>dirty := replicate (length (dirty s)) 0,
            volumes := map (\<lambda>(v, d). if d \<noteq> 0 then Volume_flush v else v)
                         (zip (volumes s) (dirty s)),
            meta := MetaVolume_flush (meta s)\<rparr>)"
  unfolding flush_def flush_loop_closed [OF assms] by simp

lemma flush_clean:
  assumes len: "length (dirty t) = length (volumes t)"
    and clean: "dirty t = replicate (length (dirty t)) 0"
  shows "flush t = Inr (t\<lparr>meta := MetaVolume_flush (meta t)\<rparr>)"
proof -
  have z: "dirty t ! i = 0" if "i < length (dirty t)" for i
    using that by (subst clean) simp
  have v: "map (\<lambda>(v, d). if d \<noteq> 0 then Volume_flush v else v)
                  (zip (volumes t) (dirty t)) = volumes t"
  proof (rule nth_equalityI)
    show "length (map (\<lambda>(v, d). if d \<noteq> 0 then Volume_flush v else v)
                  (zip (volumes t) (dirty t))) = length (volumes t)"
      using len by simp
    show "map (\<lambda>(v, d). if d \<noteq> 0 then Volume_flush v else v)
                  (zip (volumes t) (dirty t)) ! i = volumes t ! i"
      if "i < length (map (\<lambda>(v, d). if d \<noteq> 0 then Volume_flush v else v)
                  (zip (volumes t) (dirty t)))" for i
      using that len z [of i] by simp
  qed
  have "flush t = Inr (t\<lparr>dirty := replicate (length (dirty t)) 0, volumes := volumes t,
                          meta := MetaVolume_flush (meta t)\<rparr>)"
    using flush_closed [OF len] unfolding v .
  also have "t\<lparr>dirty := replicate (length (dirty t)) 0, volumes := volumes t,
                          meta := MetaVolume_flush (meta t)\<rparr>
            = t\<lparr>dirty := dirty t, volumes := volumes t, meta := MetaVolume_flush (meta t)\<rparr>"
    using clean by (rule arg_cong [where f = "\<lambda>d. t\<lparr>dirty := d, volumes := volumes t,
                          meta := MetaVolume_flush (meta t)\<rparr>", OF sym])
  finally show ?thesis by simp
qed

text \<open>
  C8. With one dirty counter per volume, \<open>flush\<close> flushes exactly the volumes whose dirty
  counter is not zero, sets every dirty counter to zero and flushes the MetaVolume. A
  second \<open>flush\<close> right after it flushes the MetaVolume once more and nothing else: the
  volumes (their flush counts included), the dirty counters and the stored generations
  and block counts are the same as after the first.
\<close>

theorem flush_twice:
  assumes "length (dirty s) = length (volumes s)"
  shows "\<exists>s1 s2. flush s = Inr s1 \<and> flush s1 = Inr s2
     \<and> s1 = s\<lparr>dirty := replicate (length (dirty s)) 0,
               volumes := map (\<lambda>(v, d). if d \<noteq> 0 then Volume_flush v else v)
                            (zip (volumes s) (dirty s)),
               meta := MetaVolume_flush (meta s)\<rparr>
     \<and> s2 = s1\<lparr>meta := MetaVolume_flush (meta s1)\<rparr>
     \<and> volumes s2 = volumes s1 \<and> dirty s2 = dirty s1
     \<and> slot_generation (meta s2) = slot_generation (meta s1)
     \<and> slot_nblocks (meta s2) = slot_nblocks (meta s1)"
proof -
  define s1 where "s1 = s\<lparr>dirty := replicate (length (dirty s)) 0,
               volumes := map (\<lambda>(v, d). if d \<noteq> 0 then Volume_flush v else v)
                            (zip (volumes s) (dirty s)),
               meta := MetaVolume_flush (meta s)\<rparr>"
  have 1: "flush s = Inr s1"
    unfolding s1_def by (rule flush_closed [OF assms])
  have len: "length (dirty s1) = length (volumes s1)"
    using assms by (simp add: s1_def)
  have clean: "dirty s1 = replicate (length (dirty s1)) 0"
    by (simp add: s1_def)
  have 2: "flush s1 = Inr (s1\<lparr>meta := MetaVolume_flush (meta s1)\<rparr>)"
    by (rule flush_clean [OF len clean])
  have 3: "slot_generation (meta (s1\<lparr>meta := MetaVolume_flush (meta s1)\<rparr>)) = slot_generation (meta s1)"
    "slot_nblocks (meta (s1\<lparr>meta := MetaVolume_flush (meta s1)\<rparr>)) = slot_nblocks (meta s1)"
    by (simp_all add: MetaVolume_flush_def)
  show ?thesis
    using 1 2 3 s1_def by auto
qed

theorem flush_twice_witness:
  "flush store_first_full =
     Inr (store_first_full\<lparr>dirty := [0, 0],
            volumes := [Volume_flush (healthy 4 [blk 1, blk 2, blk 3, blk 4]), healthy 4 []],
            meta := MetaVolume_flush (meta store_first_full)\<rparr>)
   \<and> flush (store_first_full\<lparr>dirty := [0, 0],
            volumes := [Volume_flush (healthy 4 [blk 1, blk 2, blk 3, blk 4]), healthy 4 []],
            meta := MetaVolume_flush (meta store_first_full)\<rparr>) =
     Inr (store_first_full\<lparr>dirty := [0, 0],
            volumes := [Volume_flush (healthy 4 [blk 1, blk 2, blk 3, blk 4]), healthy 4 []],
            meta := MetaVolume_flush (MetaVolume_flush (meta store_first_full))\<rparr>)"
proof -
  have len: "length (dirty store_first_full) = length (volumes store_first_full)"
    by (simp add: registry_def store_first_full_def)
  from flush_twice [OF len] show ?thesis
    by (auto simp add: store_first_full_def numeral_2_eq_2)
qed

section \<open>Append\<close>

text \<open>
  The first attempt of \<open>append_block\<close>: when the current volume reports any status but
  overflow and the block count of the current slot can be written, the call stores the
  returned offset plus one as the block count, increments the slot's dirty counter and
  returns \<open>AKU_SUCCESS\<close> with the address made of the current generation and the offset.
  The status the volume reported is not looked at again.
\<close>

lemma append_first_attempt:
  assumes "current_volume s < length (volumes s)" and "length (dirty s) = length (volumes s)"
    and "Volume_append_block (volumes s ! current_volume s) source = (st, off, v)"
    and "st \<noteq> AKU_EOVERFLOW"
    and "get_nblocks (meta s) (current_volume s) = (AKU_SUCCESS, n)"
  shows "append_block s source =
     Inr (AKU_SUCCESS, make_logic (current_gen s) off,
          s\<lparr>volumes := (volumes s)[current_volume s := v],
            meta := (meta s)\<lparr>slot_nblocks := (slot_nblocks (meta s))(current_volume s \<mapsto> off + 1)\<rparr>,
            dirty := (dirty s)[current_volume s := dirty s ! current_volume s + 1]\<rparr>)"
  using assms
  by (auto simp add: append_block_def Let_def get_nblocks_def set_nblocks_def split: option.splits if_splits)

lemma Volume_append_success:
  assumes "Volume_append_block w source = (AKU_SUCCESS, off, v)"
  shows "unat off = length (written w) \<and> off < off + 1
       \<and> v = w\<lparr>written := written w @ [source]\<rparr> \<and> io_status w = AKU_SUCCESS"
proof -
  from assms have lt: "length (written w) < unat (file_size w)"
    and io: "io_status w = AKU_SUCCESS"
    and off: "off = of_nat (length (written w))"
    and v: "v = w\<lparr>written := written w @ [source]\<rparr>"
    by (auto simp add: Volume_append_block_def split: if_splits)
  have "unat (file_size w) < 2 ^ 32"
    using unsigned_less [of "file_size w"] by simp
  with lt have small: "length (written w) + 1 < 2 ^ 32" by simp
  then have u: "unat off = length (written w)"
    unfolding off by (simp add: unsigned_of_nat take_bit_nat_eq_self)
  have "unat off + unat (1::32 word) < 2 ^ 32"
    using small u by simp
  then have "unat (off + 1) = unat off + 1"
    by (simp add: unat_add_lem [THEN iffD1])
  then have "off < off + 1"
    by (simp add: word_less_nat_alt)
  with u v io show ?thesis by simp
qed


lemma Volume_read_appended:
  assumes "unat off = length (written w)" and "io_status w = AKU_SUCCESS"
    and "length source = bsz"
  shows "Volume_read_block (w\<lparr>written := written w @ [source]\<rparr>) off (replicate bsz 0)
           = (AKU_SUCCESS, source)"
  using assms by (simp add: Volume_read_block_def)

lemma append_read_first_attempt:
  assumes cv: "current_volume s < length (volumes s)"
    and len: "length (dirty s) = length (volumes s)"
    and ok: "Volume_append_block (volumes s ! current_volume s) source = (AKU_SUCCESS, off, v)"
    and nb: "get_nblocks (meta s) (current_volume s) = (AKU_SUCCESS, n)"
    and gen: "get_generation (meta s) (current_volume s) = (AKU_SUCCESS, current_gen s)"
    and slot: "unat (current_gen s) mod length (volumes s) = current_volume s"
    and size: "length source = bsz"
  shows "\<exists>a s'. append_block s source = Inr (AKU_SUCCESS, a, s')
           \<and> a = make_logic (current_gen s) off
           \<and> read_block bsz s' a = Inr (AKU_SUCCESS, Some \<lparr>data = source, addr = a\<rparr>)"
proof -
  define s' where "s' = s\<lparr>volumes := (volumes s)[current_volume s := v],
            meta := (meta s)\<lparr>slot_nblocks := (slot_nblocks (meta s))(current_volume s \<mapsto> off + 1)\<rparr>,
            dirty := (dirty s)[current_volume s := dirty s ! current_volume s + 1]\<rparr>"
  have app: "append_block s source = Inr (AKU_SUCCESS, make_logic (current_gen s) off, s')"
    unfolding s'_def by (rule append_first_attempt [OF cv len ok _ nb]) simp
  from Volume_append_success [OF ok] have
    u: "unat off = length (written (volumes s ! current_volume s))"
    and lt: "off < off + 1"
    and v: "v = (volumes s ! current_volume s)\<lparr>written := written (volumes s ! current_volume s) @ [source]\<rparr>"
    and io: "io_status (volumes s ! current_volume s) = AKU_SUCCESS"
    by simp_all
  have rd: "Volume_read_block v off (replicate bsz 0) = (AKU_SUCCESS, source)"
    unfolding v by (rule Volume_read_appended [OF u io size])
  have ne: "volumes s' \<noteq> []" using cv by (auto simp add: s'_def)
  have "read_block bsz s' (make_logic (current_gen s) off)
          = Inr (AKU_SUCCESS, Some \<lparr>data = source, addr = make_logic (current_gen s) off\<rparr>)"
  proof -
    have nle: "\<not> off + 1 \<le> off" using lt by simp
    show ?thesis
      using cv gen nb slot nle rd ne
      by (simp add: read_block_def extract_gen_make_logic extract_vol_make_logic s'_def
          get_generation_def get_nblocks_def Let_def split: option.splits if_splits)
  qed
  with app show ?thesis by blast
qed

text \<open>
  The retry of \<open>append_block\<close>: when the current volume reports overflow and the rotation
  leaves the store \<open>s2\<close>, the call returns what the second attempt reports, and the store
  it leaves is \<open>s2\<close> with the volume appended to: neither the stored block count nor the
  dirty counter of the new slot is touched.
\<close>

lemma advance_volume_in_range:
  assumes "advance_volume s = Inr s'"
  shows "current_volume s' < length (volumes s') \<and> length (volumes s') = length (volumes s)"
proof -
  have ne: "volumes s \<noteq> []"
    using assms by (auto simp add: advance_volume_def)
  then have "Suc (current_volume s) mod length (volumes s) < length (volumes s)"
    by simp
  with assms ne show ?thesis
    by (auto simp add: advance_volume_def Let_def split: prod.splits if_splits)
qed

lemma append_after_rotation:
  assumes cv: "current_volume s < length (volumes s)"
    and full: "Volume_append_block (volumes s ! current_volume s) source = (AKU_EOVERFLOW, off, v)"
    and adv: "advance_volume (s\<lparr>volumes := (volumes s)[current_volume s := v]\<rparr>) = Inr s2"
    and retry: "Volume_append_block (volumes s2 ! current_volume s2) source = (st, off2, v2)"
  shows "append_block s source =
     Inr (st, if st \<noteq> AKU_SUCCESS then 0 else make_logic (current_gen s2) off2,
          s2\<lparr>volumes := (volumes s2)[current_volume s2 := v2]\<rparr>)"
  using assms advance_volume_in_range [OF adv]
  by (simp add: append_block_def Let_def)

text \<open>The appends of the example stores.\<close>

lemma append_rotated:
  "append_block store_first_full (blk 9) = Inr (AKU_SUCCESS, make_logic 1 0, store_rotated)"
  by (simp add: registry_def append_block_def advance_volume_def Volume_append_block_def store_first_full_def
      store_rotated_def healthy_def get_generation_def get_nblocks_def Let_def)

lemma append_wrapped:
  "append_block store_both_full (blk 9) = Inr (AKU_SUCCESS, make_logic 2 0, store_wrapped)"
  by (simp add: registry_def append_block_def advance_volume_def Volume_append_block_def store_both_full_def
      store_wrapped_def healthy_def get_generation_def get_nblocks_def set_generation_def
      set_nblocks_def Volume_reset_def Let_def fun_eq_iff)

lemma append_io_error:
  "append_block store_io_error (blk 9) =
     Inr (AKU_SUCCESS, make_logic 0 0,
          store_io_error\<lparr>meta := registry [0 \<mapsto> 0, 1 \<mapsto> 1] [0 \<mapsto> 1, 1 \<mapsto> 0],
                           dirty := [3, 0]\<rparr>)"
  by (simp add: registry_def append_block_def Volume_append_block_def store_io_error_def
      healthy_def get_nblocks_def set_nblocks_def Let_def fun_eq_iff)

text \<open>
  The example stores are reached by appends: four appends to the fresh store fill volume
  0, four more rotate to volume 1 and fill it.
\<close>

lemma four_appends:
  "append_blocks store_fresh [blk 1, blk 2, blk 3, blk 4] =
     Inr ([(AKU_SUCCESS, make_logic 0 0), (AKU_SUCCESS, make_logic 0 1),
           (AKU_SUCCESS, make_logic 0 2), (AKU_SUCCESS, make_logic 0 3)], store_first_full)"
  by (simp add: registry_def append_block_def Volume_append_block_def store_fresh_def store_first_full_def
      healthy_def get_nblocks_def set_nblocks_def Let_def fun_eq_iff)

lemma four_more_appends:
  "append_blocks store_first_full [blk 5, blk 6, blk 7, blk 8] =
     Inr ([(AKU_SUCCESS, make_logic 1 0), (AKU_SUCCESS, make_logic 1 1),
           (AKU_SUCCESS, make_logic 1 2), (AKU_SUCCESS, make_logic 1 3)], store_both_full)"
  by (simp add: registry_def append_block_def advance_volume_def Volume_append_block_def
      store_first_full_def store_both_full_def healthy_def get_generation_def
      get_nblocks_def set_nblocks_def Let_def fun_eq_iff)

text \<open>
  C1 (the code at a failing input). Two volumes of four blocks, the first one full: the
  append of \<open>blk 9\<close> rotates to the second volume and returns \<open>AKU_SUCCESS\<close> with the
  address of generation 1, offset 0; in the store it leaves, \<open>read_block\<close> of that
  address returns \<open>AKU_EBAD_ARG\<close> and no block, and \<open>exists\<close> is false.
\<close>

theorem append_rotated_not_readable:
  "append_block store_first_full (blk 9) = Inr (AKU_SUCCESS, make_logic 1 0, store_rotated)
   \<and> length (blk 9) = 4
   \<and> read_block 4 store_rotated (make_logic 1 0) = Inr (AKU_EBAD_ARG, None)
   \<and> exists store_rotated (make_logic 1 0) = Inr False"
  using append_rotated
  by (simp add: registry_def read_block_def exists_def extract_gen_make_logic extract_vol_make_logic
      store_rotated_def get_generation_def get_nblocks_def blk_def)

theorem append_rotated_not_readable_witness:
  "read_block 4 store_rotated (make_logic 1 0)
     \<noteq> Inr (AKU_SUCCESS, Some \<lparr>data = blk 9, addr = make_logic 1 0\<rparr>)"
  using append_rotated_not_readable by simp

text \<open>
  C2 (the code at a failing input). The same append, which lands on the retry after the
  rotation at offset 0: afterwards the block count stored for the current slot is still
  0, not 1, and the slot's dirty counter is still 0; the address is the one made of the
  current generation and the offset.
\<close>

theorem append_rotated_not_committed:
  "append_block store_first_full (blk 9) = Inr (AKU_SUCCESS, make_logic 1 0, store_rotated)
   \<and> current_volume store_rotated = 1 \<and> current_gen store_rotated = 1
   \<and> get_nblocks (meta store_rotated) 1 = (AKU_SUCCESS, 0)
   \<and> dirty store_rotated ! 1 = 0
   \<and> written (volumes store_rotated ! 1) = [blk 9]"
  using append_rotated
  by (simp add: registry_def store_rotated_def get_nblocks_def healthy_def)

text \<open>
  C3 (the code at a failing input). The current volume holds two blocks and its storage
  reports status 8 for the append: \<open>append_block\<close> returns \<open>AKU_SUCCESS\<close>, not status 8,
  with the address of generation 0, offset 0, sets the stored block count of the slot
  from 2 to 1 and increments its dirty counter; it does not rotate.
\<close>

theorem append_io_error_swallowed:
  "Volume_append_block (volumes store_io_error ! current_volume store_io_error) (blk 9)
     = (AKU_EOTHER 8, 0, volumes store_io_error ! current_volume store_io_error)
   \<and> append_block store_io_error (blk 9) =
       Inr (AKU_SUCCESS, make_logic 0 0,
            store_io_error\<lparr>meta := registry [0 \<mapsto> 0, 1 \<mapsto> 1] [0 \<mapsto> 1, 1 \<mapsto> 0],
                             dirty := [3, 0]\<rparr>)"
  using append_io_error
  by (simp add: registry_def store_io_error_def Volume_append_block_def)

end
